theory Spec2Isabelle
  imports Complex_Main "HOL-Library.Word"
begin

unbundle bit_operations_syntax

section \<open>The amd64 video backend: ffmpeg capture, H.264 framing, quality control\<close>

text \<open>
  A shallow embedding of the Go file of package \<open>native\<close> built for
  \<open>linux && amd64\<close> (the variant with hardware acceleration). Package-level
  variables become the fields of one record that every operation takes and
  returns; the environment (environment variables, \<open>os.Stat\<close>, the outcome of
  launching ffmpeg, what the pipe delivers) is passed in explicitly.
\<close>

subsection \<open>Bytes and the boundary scan\<close>

type_synonym byte = "8 word"

text \<open>
  Go's \<open>bytes.Index(s, sep)\<close>: the index of the first instance of \<open>sep\<close> in
  \<open>s\<close>, or \<open>-1\<close> when there is none. The empty separator is found at 0.
\<close>

fun bytes_Index :: "byte list \<Rightarrow> byte list \<Rightarrow> int" where
  "bytes_Index [] sep = (if sep = [] then 0 else - 1)"
| "bytes_Index (x # xs) sep =
     (if take (length sep) (x # xs) = sep then 0
      else (let r = bytes_Index xs sep in if r < 0 then - 1 else r + 1))"

definition startCode :: "byte list" where
  "startCode = [0x00, 0x00, 0x00, 0x01]"

text \<open>
  The loop of \<open>indexAUD\<close>, with the loop variable \<open>i\<close> as argument. The source
  loop has no bound of its own (\<open>for i := 0; ; \<close>): with an empty \<open>sc\<close> the
  position never advances, so the loop is a partial function and not returning
  is the value \<open>None\<close>. The slice \<open>b[i:]\<close> is always in range: \<open>i\<close> is 0 or
  was checked against \<open>len(b)\<close> at the end of the previous iteration.
\<close>

partial_function (option) indexAUD_loop :: "byte list \<Rightarrow> byte list \<Rightarrow> int \<Rightarrow> int option" where
  [code]: "indexAUD_loop b sc i =
     (let j = bytes_Index (drop (nat i) b) sc in
      if j < 0 then Some (- 1)
      else
        let pos = i + j in
        if pos + int (length sc) < int (length b) \<and>
           (b ! nat (pos + int (length sc))) AND 0x1F = 9
        then Some pos
        else
          let i' = pos + int (length sc) in
          if i' \<ge> int (length b) then Some (- 1) else indexAUD_loop b sc i')"

definition indexAUD :: "byte list \<Rightarrow> byte list \<Rightarrow> int option" where
  "indexAUD b sc = indexAUD_loop b sc 0"

subsection \<open>Values of the Go types\<close>

text \<open>
  \<open>float64\<close>: the finite values, the two infinities and NaN. A finite value
  is given by the real number it denotes. The code compares with the constants
  0.5 and 2.0, which is exact; every comparison with NaN is false.
\<close>

datatype float64 = Fin real | PInf | NInf | NaN

fun f64_less :: "float64 \<Rightarrow> float64 \<Rightarrow> bool" where
  "f64_less NaN y = False"
| "f64_less x NaN = False"
| "f64_less (Fin a) (Fin b) = (a < b)"
| "f64_less (Fin a) PInf = True"
| "f64_less (Fin a) NInf = False"
| "f64_less PInf y = False"
| "f64_less NInf (Fin b) = True"
| "f64_less NInf PInf = True"
| "f64_less NInf NInf = False"

text \<open>
  The product \<open>4 * factor\<close>. The code forms it after the two clamps, so for a
  finite factor in [0.5, 2.0], where multiplying by 4 only changes the
  exponent and is exact; NaN stays NaN.
\<close>

fun f64_times4 :: "float64 \<Rightarrow> float64" where
  "f64_times4 (Fin x) = Fin (4 * x)"
| "f64_times4 PInf = PInf"
| "f64_times4 NInf = NInf"
| "f64_times4 NaN = NaN"

text \<open>
  The conversion \<open>int(x)\<close> drops the fraction of a finite value (the values
  converted here are at most 8, far inside \<open>int\<close>). For NaN and the infinities
  Go leaves the result to the implementation; it is the first argument.
\<close>

fun int_of_float64 :: "int \<Rightarrow> float64 \<Rightarrow> int" where
  "int_of_float64 dflt (Fin x) = (if 0 \<le> x then \<lfloor>x\<rfloor> else \<lceil>x\<rceil>)"
| "int_of_float64 dflt PInf = dflt"
| "int_of_float64 dflt NInf = dflt"
| "int_of_float64 dflt NaN = dflt"

text \<open>\<open>strconv.Itoa\<close> and the verb \<open>%d\<close>: decimal digits, a minus sign first when negative.\<close>

fun digits10 :: "nat \<Rightarrow> string" where
  "digits10 n =
     (if n < 10 then [''0123456789'' ! n]
      else digits10 (n div 10) @ [''0123456789'' ! (n mod 10)])"

declare digits10.simps [simp del]

definition Itoa :: "int \<Rightarrow> string" where
  "Itoa v = (if v < 0 then CHR ''-'' # digits10 (nat (- v)) else digits10 (nat v))"

datatype zerolog_Level = DebugLevel | InfoLevel | WarnLevel | ErrorLevel | FatalLevel | PanicLevel

record nativeLogMessage =
  Level :: zerolog_Level
  Message :: string

text \<open>
  Modelled from the spec: the struct \<open>VideoState\<close> is declared outside the
  file; the file uses its fields \<open>Ready\<close>, \<open>Error\<close> and \<open>FramePerSecond\<close>
  (the spec's PipelineState: ready, errorMessage, framesPerSecond).
\<close>

record VideoState =
  Ready :: bool
  Error :: string
  FramePerSecond :: float64

text \<open>
  The three handles of a run. Only whether each variable is \<open>nil\<close> matters to
  the code, so the command keeps its argument vector and the other two are
  tokens.
\<close>

type_synonym Cmd = "string list"

datatype CancelFunc = CancelFunc

datatype ioReadCloser = StdoutPipe

text \<open>What the operating system is asked to do, in order.\<close>

datatype os_event = Spawn "string list" | CtxCancel | Kill | Wait

text \<open>
  The package-level variables. The three channels are declared outside the file:
  \<open>logChan\<close> is sent to without a test, the other two only when they are not
  \<open>nil\<close>; a channel is the list of what was sent on it, \<open>None\<close> is \<open>nil\<close>.
  \<open>os_trace\<close> is not a variable of the program: it records the process
  operations the code performs.
\<close>

record native =
  ffmpegCmd :: "Cmd option"
  ffmpegCancel :: "CancelFunc option"
  ffmpegStdout :: "ioReadCloser option"
  targetFPS :: int
  targetBitrate :: string
  videoDevice :: string
  qualityFactor :: float64
  currentState :: VideoState
  hwAccelMode :: string
  vaapiDevice :: string
  logChan :: "nativeLogMessage list"
  videoFrameChan :: "byte list list option"
  videoStateChan :: "VideoState list option"
  os_trace :: "os_event list"

text \<open>The initial values of the \<open>var\<close> blocks, for given channels.\<close>

definition initial :: "byte list list option \<Rightarrow> VideoState list option \<Rightarrow> native" where
  "initial fc sc =
     \<lparr> ffmpegCmd = None, ffmpegCancel = None, ffmpegStdout = None,
       targetFPS = 30, targetBitrate = ''4M'', videoDevice = ''/dev/video0'',
       qualityFactor = Fin 1.0,
       currentState = \<lparr> Ready = False, Error = [], FramePerSecond = Fin 0 \<rparr>,
       hwAccelMode = ''auto'', vaapiDevice = ''/dev/dri/renderD128'',
       logChan = [], videoFrameChan = fc, videoStateChan = sc, os_trace = [] \<rparr>"

text \<open>
  What the code reads from outside: environment variables (\<open>os.Getenv\<close> gives
  the empty string for an unset one), whether \<open>os.Stat\<close> returns no error for a
  path, and the errors of \<open>cmd.StdoutPipe()\<close> and \<open>cmd.Start()\<close> (\<open>None\<close> is
  \<open>nil\<close>, otherwise the error's text). With them goes the one value the
  language leaves to the implementation: the \<open>int\<close> that converting NaN gives.
\<close>

record world =
  os_Getenv :: "string \<Rightarrow> string"
  os_Stat :: "string \<Rightarrow> bool"
  StdoutPipe_err :: "string option"
  Start_err :: "string option"
  int_of_NaN :: int

text \<open>
  The functions of Go's \<open>strings\<close> and \<open>strconv\<close> that \<open>videoInit\<close> calls.
  They work on Unicode text; the model takes them as parameters, and
  \<open>Atoi\<close> gives \<open>None\<close> where the Go function returns an error.
\<close>

record golib =
  TrimSpace :: "string \<Rightarrow> string"
  ToLower :: "string \<Rightarrow> string"
  Atoi :: "string \<Rightarrow> int option"

subsection \<open>videoInit\<close>

text \<open>The first part of \<open>videoInit\<close>: the five settings read from the environment.\<close>

definition videoInit_env :: "golib \<Rightarrow> world \<Rightarrow> native \<Rightarrow> native" where
  "videoInit_env L W s0 =
     (let dev = TrimSpace L (os_Getenv W ''VIDEO_DEVICE'');
          s1 = (if dev \<noteq> [] then s0\<lparr>videoDevice := dev\<rparr> else s0);
          fpsStr = TrimSpace L (os_Getenv W ''VIDEO_FPS'');
          s2 = (if fpsStr \<noteq> [] then
                  (case Atoi L fpsStr of
                     Some v \<Rightarrow> if v > 0 \<and> v \<le> 120 then s1\<lparr>targetFPS := v\<rparr> else s1
                   | None \<Rightarrow> s1)
                else s1);
          br = TrimSpace L (os_Getenv W ''VIDEO_BITRATE'');
          s3 = (if br \<noteq> [] then s2\<lparr>targetBitrate := br\<rparr> else s2);
          accel = TrimSpace L (os_Getenv W ''VIDEO_HWACCEL'');
          s4 = (if accel \<noteq> [] then
                  (let accelLower = ToLower L accel in
                   if accelLower = ''auto'' \<or> accelLower = ''vaapi'' \<or>
                      accelLower = ''qsv'' \<or> accelLower = ''none''
                   then s3\<lparr>hwAccelMode := accelLower\<rparr> else s3)
                else s3);
          vdev = TrimSpace L (os_Getenv W ''VIDEO_VAAPI_DEVICE'')
      in if vdev \<noteq> [] then s4\<lparr>vaapiDevice := vdev\<rparr> else s4)"

text \<open>
  \<open>videoInit\<close>: the settings, then the check that the capture device exists.
  The result is the returned error (\<open>None\<close> is \<open>nil\<close>, otherwise the text
  given to \<open>fmt.Errorf\<close>) and the new state.
\<close>

definition videoInit :: "golib \<Rightarrow> world \<Rightarrow> native \<Rightarrow> string option \<times> native" where
  "videoInit L W s0 =
     (let s5 = videoInit_env L W s0
      in if \<not> os_Stat W (videoDevice s5)
         then (Some (''video device not found: '' @ videoDevice s5), s5)
         else (None, s5))"

subsection \<open>buildFFmpegArgs\<close>

definition vaapi_args :: "native \<Rightarrow> string list" where
  "vaapi_args s =
     [''-hide_banner'',
      ''-loglevel'', ''warning'',
      ''-fflags'', ''nobuffer'',
      ''-flags'', ''low_delay'',
      ''-hwaccel'', ''vaapi'',
      ''-vaapi_device'', vaapiDevice s,
      ''-f'', ''v4l2'',
      ''-input_format'', ''mjpeg'',
      ''-i'', videoDevice s,
      ''-an'',
      ''-vf'', ''format=nv12,hwupload'',
      ''-c:v'', ''h264_vaapi'',
      ''-bf'', ''0'',
      ''-r'', Itoa (targetFPS s),
      ''-b:v'', targetBitrate s,
      ''-f'', ''h264'',
      ''pipe:1'']"

definition qsv_args :: "native \<Rightarrow> string list" where
  "qsv_args s =
     [''-hide_banner'',
      ''-loglevel'', ''warning'',
      ''-fflags'', ''nobuffer'',
      ''-flags'', ''low_delay'',
      ''-hwaccel'', ''qsv'',
      ''-f'', ''v4l2'',
      ''-input_format'', ''mjpeg'',
      ''-i'', videoDevice s,
      ''-an'',
      ''-c:v'', ''h264_qsv'',
      ''-look_ahead'', ''0'',
      ''-bf'', ''0'',
      ''-r'', Itoa (targetFPS s),
      ''-b:v'', targetBitrate s,
      ''-f'', ''h264'',
      ''pipe:1'']"

definition libx264_args :: "native \<Rightarrow> string list" where
  "libx264_args s =
     [''-hide_banner'',
      ''-loglevel'', ''warning'',
      ''-fflags'', ''nobuffer'',
      ''-flags'', ''low_delay'',
      ''-f'', ''v4l2'',
      ''-input_format'', ''mjpeg'',
      ''-i'', videoDevice s,
      ''-an'',
      ''-c:v'', ''libx264'',
      ''-preset'', ''veryfast'',
      ''-tune'', ''zerolatency'',
      ''-profile:v'', ''baseline'',
      ''-level'', ''3.1'',
      ''-pix_fmt'', ''yuv420p'',
      ''-r'', Itoa (targetFPS s),
      ''-b:v'', targetBitrate s,
      ''-f'', ''h264'',
      ''pipe:1'']"

definition buildFFmpegArgs :: "world \<Rightarrow> native \<Rightarrow> string list" where
  "buildFFmpegArgs W s =
     (let canVAAPI =
            ((hwAccelMode s = ''vaapi'' \<or> hwAccelMode s = ''auto'') \<and>
             os_Stat W (vaapiDevice s));
          canQSV =
            ((hwAccelMode s = ''qsv'' \<or> (hwAccelMode s = ''auto'' \<and> \<not> canVAAPI)) \<and>
             os_Stat W ''/dev/dri/renderD128'')
      in if canVAAPI \<and> hwAccelMode s \<noteq> ''none'' then vaapi_args s
         else if canQSV \<and> hwAccelMode s \<noteq> ''none'' then qsv_args s
         else libx264_args s)"

subsection \<open>videoStart and videoStop\<close>

definition publish_state :: "native \<Rightarrow> native" where
  "publish_state s =
     (case videoStateChan s of
        None \<Rightarrow> s
      | Some q \<Rightarrow> s\<lparr>videoStateChan := Some (q @ [currentState s])\<rparr>)"

definition log_error :: "string \<Rightarrow> native \<Rightarrow> native" where
  "log_error msg s = s\<lparr>logChan := logChan s @ [\<lparr> Level = ErrorLevel, Message = msg \<rparr>]\<rparr>"

text \<open>
  \<open>videoStart\<close> up to the point where the two reader goroutines are started;
  the goroutine that reads the pipe is \<open>stdout_reader\<close> below. A process exists
  only once \<open>cmd.Start()\<close> has returned without error, which is where the
  trace gets its \<open>Spawn\<close>.
\<close>

definition videoStart :: "world \<Rightarrow> native \<Rightarrow> native" where
  "videoStart W s =
     (if ffmpegCmd s \<noteq> None then s
      else
        let s1 = s\<lparr>ffmpegCancel := Some CancelFunc\<rparr>;
            args = buildFFmpegArgs W s1;
            s2 = s1\<lparr>ffmpegCmd := Some (''ffmpeg'' # args)\<rparr>
        in (case StdoutPipe_err W of
             Some err \<Rightarrow>
               (log_error (''ffmpeg stdout pipe error: '' @ err) s2)
                 \<lparr>ffmpegCmd := None, ffmpegCancel := None\<rparr>
           | None \<Rightarrow>
               (let s3 = s2\<lparr>ffmpegStdout := Some StdoutPipe\<rparr>
                in (case Start_err W of
                      Some err \<Rightarrow>
                        (log_error (''ffmpeg start failed: '' @ err) s3)
                          \<lparr>ffmpegCmd := None, ffmpegCancel := None\<rparr>
                    | None \<Rightarrow>
                        (let s4 = s3\<lparr>os_trace := os_trace s3 @ [Spawn (''ffmpeg'' # args)]\<rparr>;
                             s5 = s4\<lparr>currentState :=
                                       (currentState s4)\<lparr>Ready := True, Error := []\<rparr>\<rparr>
                         in publish_state s5)))))"

definition videoStop :: "native \<Rightarrow> native" where
  "videoStop s =
     (let s1 = (if ffmpegCancel s \<noteq> None
                then s\<lparr>os_trace := os_trace s @ [CtxCancel]\<rparr> else s);
          s2 = (if ffmpegCmd s1 \<noteq> None
                then s1\<lparr>os_trace := os_trace s1 @ [Kill, Wait]\<rparr> else s1);
          s3 = s2\<lparr>ffmpegCmd := None, ffmpegCancel := None, ffmpegStdout := None\<rparr>;
          s4 = s3\<lparr>currentState := (currentState s3)\<lparr>Ready := False\<rparr>\<rparr>
      in publish_state s4)"

subsection \<open>The quality factor\<close>

definition videoGetStreamQualityFactor :: "native \<Rightarrow> float64 \<times> string option" where
  "videoGetStreamQualityFactor s = (qualityFactor s, None)"

definition videoSetStreamQualityFactor :: "world \<Rightarrow> float64 \<Rightarrow> native \<Rightarrow> string option \<times> native" where
  "videoSetStreamQualityFactor W factor s =
     (let factor1 = (if f64_less factor (Fin 0.5) then Fin 0.5 else factor);
          factor2 = (if f64_less (Fin 2.0) factor1 then Fin 2.0 else factor1);
          s1 = s\<lparr>qualityFactor := factor2\<rparr>;
          mbps = int_of_float64 (int_of_NaN W) (f64_times4 factor2);
          mbps1 = (if mbps < 2 then 2 else mbps);
          mbps2 = (if mbps1 > 12 then 12 else mbps1);
          s2 = s1\<lparr>targetBitrate := Itoa mbps2 @ ''M''\<rparr>;
          s3 = (if ffmpegCmd s2 \<noteq> None then videoStart W (videoStop s2) else s2)
      in (None, s3))"

subsection \<open>Facts about the boundary scan\<close>

lemma bytes_Index_found:
  "0 \<le> bytes_Index s sep \<Longrightarrow>
     nat (bytes_Index s sep) + length sep \<le> length s \<and>
     take (length sep) (drop (nat (bytes_Index s sep)) s) = sep"
proof (induction s)
  case Nil
  then show ?case by (simp split: if_splits)
next
  case (Cons x xs)
  show ?case
  proof (cases "take (length sep) (x # xs) = sep")
    case True
    then have "length (take (length sep) (x # xs)) = length sep"
      by simp
    then have "length sep \<le> length (x # xs)"
      by simp
    with True show ?thesis by simp
  next
    case False
    with Cons.prems have nn: "0 \<le> bytes_Index xs sep"
      by (simp add: Let_def split: if_splits)
    with False have eq: "bytes_Index (x # xs) sep = bytes_Index xs sep + 1"
      by (simp add: Let_def)
    from nn have "nat (bytes_Index xs sep + 1) = Suc (nat (bytes_Index xs sep))"
      by simp
    with Cons.IH [OF nn] eq show ?thesis by simp
  qed
qed

lemma indexAUD_loop_sound:
  assumes "sc \<noteq> []"
  shows "0 \<le> i \<Longrightarrow> i \<le> int (length b) \<Longrightarrow>
    \<exists>r. indexAUD_loop b sc i = Some r \<and>
      (r = - 1 \<or>
       (i \<le> r \<and> r + int (length sc) < int (length b) \<and>
        take (length sc) (drop (nat r) b) = sc \<and>
        (b ! nat (r + int (length sc))) AND 0x1F = 9))"
proof (induction "length b - nat i" arbitrary: i rule: less_induct)
  case less
  define j where "j = bytes_Index (drop (nat i) b) sc"
  show ?case
  proof (cases "j < 0")
    case True
    then show ?thesis
      by (subst indexAUD_loop.simps) (simp add: j_def Let_def)
  next
    case False
    then have j0: "0 \<le> j" by simp
    from bytes_Index_found [of "drop (nat i) b" sc] j0
    have mk: "take (length sc) (drop (nat j) (drop (nat i) b)) = sc"
      by (simp_all add: j_def)
    from less.prems j0 have natij: "nat (i + j) = nat j + nat i"
      by (simp add: nat_add_distrib)
    from mk natij have mk': "take (length sc) (drop (nat (i + j)) b) = sc"
      by simp
    show ?thesis
    proof (cases "i + j + int (length sc) < int (length b) \<and>
                  (b ! nat (i + j + int (length sc))) AND 0x1F = 9")
      case True
      with False j0 mk' show ?thesis
        by (subst indexAUD_loop.simps) (simp add: j_def [symmetric] Let_def)
    next
      case nohit: False
      show ?thesis
      proof (cases "int (length b) \<le> i + j + int (length sc)")
        case True
        with False nohit show ?thesis
          by (subst indexAUD_loop.simps) (simp add: j_def [symmetric] Let_def)
      next
        case cont: False
        define i' where "i' = i + j + int (length sc)"
        from assms have "0 < length sc" by simp
        with less.prems j0 cont have dec: "length b - nat i' < length b - nat i"
          and r1: "0 \<le> i'" and r2: "i' \<le> int (length b)"
          unfolding i'_def by linarith+
        from less.hyps [OF dec r1 r2] obtain r where
          r: "indexAUD_loop b sc i' = Some r"
          and rp: "r = - 1 \<or>
            (i' \<le> r \<and> r + int (length sc) < int (length b) \<and>
             take (length sc) (drop (nat r) b) = sc \<and>
             (b ! nat (r + int (length sc))) AND 0x1F = 9)"
          by blast
        have step: "indexAUD_loop b sc i = indexAUD_loop b sc i'"
          using False nohit cont
          by (subst indexAUD_loop.simps) (simp add: j_def [symmetric] i'_def Let_def)
        from rp j0 have "r = - 1 \<or>
            (i \<le> r \<and> r + int (length sc) < int (length b) \<and>
             take (length sc) (drop (nat r) b) = sc \<and>
             (b ! nat (r + int (length sc))) AND 0x1F = 9)"
          by (auto simp: i'_def)
        with step r show ?thesis by simp
      qed
    qed
  qed
qed

lemma indexAUD_sound:
  "\<exists>r. indexAUD b startCode = Some r \<and>
      (r = - 1 \<or>
       (0 \<le> r \<and> r + 4 < int (length b) \<and>
        take 4 (drop (nat r) b) = startCode \<and>
        (b ! nat (r + 4)) AND 0x1F = 9))"
proof -
  have ne: "startCode \<noteq> []" and len: "length startCode = 4"
    by (simp_all add: startCode_def)
  from indexAUD_loop_sound [OF ne, of 0 b] show ?thesis
    by (simp add: indexAUD_def len)
qed

text \<open>
  With an empty marker and a first byte that is not an AUD header the source
  loop does not return: \<open>bytes.Index\<close> finds the empty marker at once and the
  position stays where it is.
\<close>

lemma indexAUD_loop_empty_marker_aux:
  assumes "indexAUD_loop b sc i = Some y"
  shows "\<not> (b = [0] \<and> sc = [] \<and> i = 0)"
proof (rule indexAUD_loop.raw_induct
    [where P = "\<lambda>b sc i y. \<not> (b = [0] \<and> sc = [] \<and> i = 0)", OF _ assms])
  fix f :: "byte list \<Rightarrow> byte list \<Rightarrow> int \<Rightarrow> int option"
    and b sc :: "byte list" and i y :: int
  assume IH: "\<And>b sc i y. f b sc i = Some y \<Longrightarrow> \<not> (b = [0] \<and> sc = [] \<and> i = 0)"
    and body: "(let j = bytes_Index (drop (nat i) b) sc in
      if j < 0 then Some (- 1)
      else
        let pos = i + j in
        if pos + int (length sc) < int (length b) \<and>
           (b ! nat (pos + int (length sc))) AND 0x1F = 9
        then Some pos
        else
          let i' = pos + int (length sc) in
          if i' \<ge> int (length b) then Some (- 1) else f b sc i') = Some y"
  show "\<not> (b = [0] \<and> sc = [] \<and> i = 0)"
  proof
    assume a: "b = [0] \<and> sc = [] \<and> i = 0"
    with body have "f [0] [] 0 = Some y" by (simp add: Let_def)
    from IH [OF this] show False by simp
  qed
qed

lemma indexAUD_empty_marker_loops: "indexAUD [0] [] = None"
proof (cases "indexAUD [0] []")
  case None
  then show ?thesis .
next
  case (Some y)
  then have "indexAUD_loop [0] [] 0 = Some y" by (simp add: indexAUD_def)
  from indexAUD_loop_empty_marker_aux [OF this] show ?thesis by simp
qed

subsection \<open>The goroutine that reads ffmpeg's standard output\<close>

text \<open>
  The inner loop: while \<open>indexAUD\<close> finds a boundary at an offset \<open>idx > 0\<close>,
  the bytes before it are sent as one frame (a copy, when the channel is not
  \<open>nil\<close>) and dropped from the buffer. It stops on \<open>idx \<le> 0\<close>: no boundary, or
  a boundary at offset 0.
\<close>

function scan_frames :: "byte list \<Rightarrow> native \<Rightarrow> (byte list \<times> native) option" where
  "scan_frames data s =
     (case indexAUD data startCode of
        None \<Rightarrow> None
      | Some idx \<Rightarrow>
          if idx \<le> 0 then Some (data, s)
          else
            let frame = take (nat idx) data;
                s' = (if length frame > 0
                      then (case videoFrameChan s of
                              None \<Rightarrow> s
                            | Some q \<Rightarrow> s\<lparr>videoFrameChan := Some (q @ [frame])\<rparr>)
                      else s)
            in scan_frames (drop (nat idx) data) s')"
  by pat_completeness auto
termination
proof (relation "measure (\<lambda>(data, s). length data)")
  show "wf (measure (\<lambda>(data, s). length data))" by simp
next
  fix data :: "byte list" and s :: native and idx :: int
    and frame :: "byte list" and s' :: native
  assume found: "indexAUD data startCode = Some idx" and pos: "\<not> idx \<le> 0"
  from indexAUD_sound [of data] found pos have "idx + 4 < int (length data)"
    by auto
  with pos show "((drop (nat idx) data, s'), (data, s)) \<in> measure (\<lambda>(data, s). length data)"
    by simp
qed

declare scan_frames.simps [simp del]

text \<open>
  One turn of the outer loop for a read that returned \<open>n > 0\<close> bytes: append,
  scan, flush a buffer longer than 256 KiB as one frame, set and publish the
  state. The pacing \<open>time.Sleep\<close> has no effect on the data. A read of no
  bytes changes nothing.
\<close>

definition read_pass :: "byte list \<Rightarrow> byte list \<times> native \<Rightarrow> (byte list \<times> native) option" where
  "read_pass chunk st =
     (case st of (buf, s) \<Rightarrow>
        if length chunk > 0 then
          (case scan_frames (buf @ chunk) s of
             None \<Rightarrow> None
           | Some (buf1, s1) \<Rightarrow>
               let (buf2, s2) =
                     (if int (length buf1) > 256 * 1024
                      then (case videoFrameChan s1 of
                              Some q \<Rightarrow> ([], s1\<lparr>videoFrameChan := Some (q @ [buf1])\<rparr>)
                            | None \<Rightarrow> ([], s1))
                      else (buf1, s1));
                   s3 = s2\<lparr>currentState :=
                             (currentState s2)\<lparr>Ready := True,
                                                FramePerSecond := Fin (real_of_int (targetFPS s2))\<rparr>\<rparr>
               in Some (buf2, publish_state s3))
        else Some (buf, s))"

text \<open>
  The outer loop over what \<open>Read\<close> returns, one pair per call: the bytes read
  and whether the error is not \<open>nil\<close>. The bytes of a read are processed before
  its error ends the loop. What the goroutine does once the loop has ended
  (closing the pipe, recovering from a panic) touches neither the buffer nor the
  channels of frames and states.
\<close>

fun stdout_reader :: "(byte list \<times> bool) list \<Rightarrow> byte list \<times> native \<Rightarrow> (byte list \<times> native) option" where
  "stdout_reader [] st = Some st"
| "stdout_reader ((chunk, err) # rs) st =
     (case read_pass chunk st of
        None \<Rightarrow> None
      | Some st' \<Rightarrow> if err then Some st' else stdout_reader rs st')"

subsection \<open>Notions the claims are stated with\<close>

text \<open>
  An access-unit-delimiter boundary at offset \<open>p\<close> of \<open>b\<close>: the start marker at
  \<open>p\<close>, followed inside \<open>b\<close> by a byte whose low five bits are 9.
\<close>

definition aud_at :: "byte list \<Rightarrow> nat \<Rightarrow> bool" where
  "aud_at b p \<longleftrightarrow>
     p + 4 < length b \<and> take 4 (drop p b) = startCode \<and> (b ! (p + 4)) AND 0x1F = 9"

definition has_boundary :: "byte list \<Rightarrow> bool" where
  "has_boundary b \<longleftrightarrow> list_ex (aud_at b) [0..<length b]"

text \<open>
  The bytes the reading loop takes from the pipe: those of every read up to
  and including the first one that comes with an error.
\<close>

fun read_bytes :: "(byte list \<times> bool) list \<Rightarrow> byte list" where
  "read_bytes [] = []"
| "read_bytes ((chunk, err) # rs) = chunk @ (if err then [] else read_bytes rs)"

text \<open>The number of processes the code has started.\<close>

fun is_Spawn :: "os_event \<Rightarrow> bool" where
  "is_Spawn (Spawn args) = True"
| "is_Spawn CtxCancel = False"
| "is_Spawn Kill = False"
| "is_Spawn Wait = False"

definition spawned :: "native \<Rightarrow> nat" where
  "spawned s = length (filter is_Spawn (os_trace s))"

text \<open>
  The states the package can be in: the initial one, and any state an
  operation of the file, or a turn of the reading goroutine, leads to from
  such a state.
\<close>

inductive reachable :: "native \<Rightarrow> bool" where
  reach_initial: "reachable (initial fc sc)"
| reach_videoInit: "reachable s \<Longrightarrow> reachable (snd (videoInit L W s))"
| reach_videoStart: "reachable s \<Longrightarrow> reachable (videoStart W s)"
| reach_videoStop: "reachable s \<Longrightarrow> reachable (videoStop s)"
| reach_setQuality: "reachable s \<Longrightarrow> reachable (snd (videoSetStreamQualityFactor W f s))"
| reach_read_pass: "reachable s \<Longrightarrow> read_pass chunk (buf, s) = Some (buf', s') \<Longrightarrow> reachable s'"

text \<open>The factor after the two clamps of \<open>videoSetStreamQualityFactor\<close>.\<close>

definition clamped :: "float64 \<Rightarrow> float64" where
  "clamped factor =
     (let factor1 = (if f64_less factor (Fin 0.5) then Fin 0.5 else factor)
      in if f64_less (Fin 2.0) factor1 then Fin 2.0 else factor1)"

text \<open>
  The two formulas in which the spec's wording differs from the code: the
  bitrate token computed with rounding, and the backend policy in which a forced
  mode does not look at the device node.
\<close>

definition spec_bitrate_token :: "real \<Rightarrow> string" where
  "spec_bitrate_token factor =
     Itoa (max 2 (min 12 (round (4 * max 0.5 (min 2.0 factor))))) @ ''M''"

definition spec_buildFFmpegArgs :: "world \<Rightarrow> native \<Rightarrow> string list" where
  "spec_buildFFmpegArgs W s =
     (if hwAccelMode s = ''vaapi'' \<or>
         (hwAccelMode s = ''auto'' \<and> os_Stat W (vaapiDevice s))
      then vaapi_args s
      else if hwAccelMode s = ''qsv'' \<or>
              (hwAccelMode s = ''auto'' \<and> \<not> os_Stat W (vaapiDevice s) \<and>
               os_Stat W ''/dev/dri/renderD128'')
      then qsv_args s
      else libx264_args s)"

subsection \<open>Concrete environments and inputs\<close>

text \<open>
  A machine without device nodes on which ffmpeg starts, and one on which it
  does not. Converting NaN gives the least \<open>int\<close>, as on amd64.
\<close>

definition bare_world :: world where
  "bare_world =
     \<lparr> os_Getenv = (\<lambda>name. []), os_Stat = (\<lambda>path. False),
       StdoutPipe_err = None, Start_err = None,
       int_of_NaN = - 9223372036854775808 \<rparr>"

definition no_ffmpeg_world :: world where
  "no_ffmpeg_world = bare_world\<lparr>Start_err := Some ''exec: ffmpeg: executable file not found in $PATH''\<rparr>"

definition full_world :: world where
  "full_world = bare_world\<lparr>os_Stat := (\<lambda>path. True)\<rparr>"

text \<open>
  The library functions as they act on text that has no surrounding space and
  no capital letters and is not a number.
\<close>

definition plain_lib :: golib where
  "plain_lib = \<lparr> TrimSpace = (\<lambda>t. t), ToLower = (\<lambda>t. t), Atoi = (\<lambda>t. None) \<rparr>"

text \<open>Two units, each the start marker, an AUD byte and one byte of body.\<close>

definition two_units :: "byte list" where
  "two_units = [0x00, 0x00, 0x00, 0x01, 0x09, 0xAA, 0x00, 0x00, 0x00, 0x01, 0x09, 0xBB]"

subsection \<open>Facts about the operations\<close>

lemma case_option_same: "(case x of None \<Rightarrow> a | Some v \<Rightarrow> a) = a"
  by (cases x) simp_all

lemma publish_state_fields [simp]:
  "ffmpegCmd (publish_state s) = ffmpegCmd s"
  "ffmpegCancel (publish_state s) = ffmpegCancel s"
  "ffmpegStdout (publish_state s) = ffmpegStdout s"
  "os_trace (publish_state s) = os_trace s"
  "qualityFactor (publish_state s) = qualityFactor s"
  "targetBitrate (publish_state s) = targetBitrate s"
  "currentState (publish_state s) = currentState s"
  "logChan (publish_state s) = logChan s"
  "videoFrameChan (publish_state s) = videoFrameChan s"
  by (simp_all add: publish_state_def split: option.splits)

lemma videoInit_env_videoDevice:
  "videoDevice (videoInit_env L W s) =
     (if TrimSpace L (os_Getenv W ''VIDEO_DEVICE'') \<noteq> []
      then TrimSpace L (os_Getenv W ''VIDEO_DEVICE'') else videoDevice s)"
  by (simp add: videoInit_env_def Let_def if_distrib [of videoDevice]
      option.case_distrib [of videoDevice] case_option_same cong: if_cong option.case_cong)

lemma videoInit_env_os_trace: "os_trace (videoInit_env L W s) = os_trace s"
  by (simp add: videoInit_env_def Let_def if_distrib [of os_trace]
      option.case_distrib [of os_trace] case_option_same cong: if_cong option.case_cong)

lemma videoInit_env_ffmpegCmd: "ffmpegCmd (videoInit_env L W s) = ffmpegCmd s"
  by (simp add: videoInit_env_def Let_def if_distrib [of ffmpegCmd]
      option.case_distrib [of ffmpegCmd] case_option_same cong: if_cong option.case_cong)

lemma videoInit_env_qualityFactor: "qualityFactor (videoInit_env L W s) = qualityFactor s"
  by (simp add: videoInit_env_def Let_def if_distrib [of qualityFactor]
      option.case_distrib [of qualityFactor] case_option_same cong: if_cong option.case_cong)

lemma videoInit_snd: "snd (videoInit L W s) = videoInit_env L W s"
  by (simp add: videoInit_def Let_def)

lemma videoStart_running: "ffmpegCmd s \<noteq> None \<Longrightarrow> videoStart W s = s"
  by (simp add: videoStart_def)

lemma videoStart_launched:
  "ffmpegCmd s = None \<Longrightarrow> StdoutPipe_err W = None \<Longrightarrow> Start_err W = None \<Longrightarrow>
     ffmpegCmd (videoStart W s) \<noteq> None \<and> spawned (videoStart W s) = spawned s + 1"
  by (simp add: videoStart_def spawned_def Let_def)

lemma videoStart_spawned_le: "spawned (videoStart W s) \<le> spawned s + 1"
  by (simp add: videoStart_def spawned_def Let_def log_error_def split: option.splits)

lemma videoStart_spawned_running:
  "spawned (videoStart W s) = spawned s + 1 \<Longrightarrow> ffmpegCmd (videoStart W s) \<noteq> None"
  by (auto simp add: videoStart_def spawned_def Let_def log_error_def
      split: option.splits if_splits)

text \<open>
  What both failure paths of \<open>videoStart\<close> do: one message at error level,
  command and cancel function back to \<open>nil\<close>, state and state channel untouched,
  no process started.
\<close>

lemma videoStart_failure:
  assumes "ffmpegCmd s = None" and "StdoutPipe_err W \<noteq> None \<or> Start_err W \<noteq> None"
  shows "ffmpegCmd (videoStart W s) = None \<and> ffmpegCancel (videoStart W s) = None \<and>
         currentState (videoStart W s) = currentState s \<and>
         os_trace (videoStart W s) = os_trace s \<and>
         videoStateChan (videoStart W s) = videoStateChan s \<and>
         (\<exists>msg. logChan (videoStart W s) = logChan s @ [\<lparr> Level = ErrorLevel, Message = msg \<rparr>])"
  using assms
  by (auto simp add: videoStart_def Let_def log_error_def split: option.splits)

lemma videoStop_idle_eq:
  assumes "ffmpegCmd s = None" and "ffmpegCancel s = None" and "ffmpegStdout s = None"
  shows "videoStop s = publish_state (s\<lparr>currentState := (currentState s)\<lparr>Ready := False\<rparr>\<rparr>)"
  using assms by (cases s) (simp add: videoStop_def Let_def)

lemma videoStop_fields:
  "ffmpegCmd (videoStop s) = None" "ffmpegCancel (videoStop s) = None"
  "ffmpegStdout (videoStop s) = None" "Ready (currentState (videoStop s)) = False"
  by (simp_all add: videoStop_def Let_def)

lemma videoStop_idle_trace:
  "ffmpegCmd s = None \<Longrightarrow> ffmpegCancel s = None \<Longrightarrow> os_trace (videoStop s) = os_trace s"
  by (simp add: videoStop_def Let_def)

lemma videoStop_twice:
  "(videoStop (videoStop s))\<lparr>videoStateChan := videoStateChan (videoStop s)\<rparr> = videoStop s"
proof -
  define t where "t = videoStop s"
  have idle: "ffmpegCmd t = None" "ffmpegCancel t = None" "ffmpegStdout t = None"
    and nr: "Ready (currentState t) = False"
    by (simp_all add: t_def videoStop_fields)
  from nr have "(currentState t)\<lparr>Ready := False\<rparr> = currentState t"
    by (cases "currentState t") simp
  then have "t\<lparr>currentState := (currentState t)\<lparr>Ready := False\<rparr>\<rparr> = t"
    by (cases t) simp
  with videoStop_idle_eq [OF idle] have "videoStop t = publish_state t" by simp
  moreover have "(publish_state t)\<lparr>videoStateChan := videoStateChan t\<rparr> = t"
    by (cases t) (simp add: publish_state_def split: option.splits)
  ultimately show ?thesis by (simp add: t_def)
qed

lemma videoStart_keeps:
  "qualityFactor (videoStart W s) = qualityFactor s"
  "targetBitrate (videoStart W s) = targetBitrate s"
  by (simp_all add: videoStart_def Let_def log_error_def split: option.splits)

lemma videoStop_keeps:
  "qualityFactor (videoStop s) = qualityFactor s"
  "targetBitrate (videoStop s) = targetBitrate s"
  by (simp_all add: videoStop_def Let_def)

lemma scan_frames_only_chan:
  "scan_frames data s = Some (rest, s') \<Longrightarrow> s' = s\<lparr>videoFrameChan := videoFrameChan s'\<rparr>"
proof (induction data s rule: scan_frames.induct)
  case (1 data s)
  from "1.prems" obtain idx where idx: "indexAUD data startCode = Some idx"
    by (subst (asm) scan_frames.simps) (auto split: option.splits)
  show ?case
  proof (cases "idx \<le> 0")
    case True
    with idx "1.prems" have "s' = s"
      by (subst (asm) scan_frames.simps) simp
    then show ?thesis by (cases s) simp
  next
    case False
    define s1 where "s1 = (if length (take (nat idx) data) > 0
                      then (case videoFrameChan s of
                              None \<Rightarrow> s
                            | Some q \<Rightarrow> s\<lparr>videoFrameChan := Some (q @ [take (nat idx) data])\<rparr>)
                      else s)"
    from idx False "1.prems" have rec: "scan_frames (drop (nat idx) data) s1 = Some (rest, s')"
      by (subst (asm) scan_frames.simps) (simp add: Let_def s1_def)
    from "1.IH" [OF idx False refl s1_def rec]
    have "s' = s1\<lparr>videoFrameChan := videoFrameChan s'\<rparr>" .
    moreover have "s1\<lparr>videoFrameChan := videoFrameChan s'\<rparr> = s\<lparr>videoFrameChan := videoFrameChan s'\<rparr>"
      by (simp add: s1_def split: option.splits)
    ultimately show ?thesis by simp
  qed
qed

lemma read_pass_qualityFactor:
  assumes "read_pass chunk (buf, s) = Some (buf', s')"
  shows "qualityFactor s' = qualityFactor s"
proof (cases "length chunk > 0")
  case False
  with assms show ?thesis by (simp add: read_pass_def)
next
  case True
  with assms obtain buf1 s1 where sc: "scan_frames (buf @ chunk) s = Some (buf1, s1)"
    by (auto simp add: read_pass_def split: option.splits)
  from scan_frames_only_chan [OF sc] have "qualityFactor s1 = qualityFactor s"
    by (metis native.select_convs(7) native.surjective native.update_convs(12))
  moreover from assms True sc have "qualityFactor s' = qualityFactor s1"
    by (auto simp add: read_pass_def Let_def split: option.splits if_splits)
  ultimately show ?thesis by simp
qed

lemma clamped_cases:
  "clamped (Fin x) = Fin (max (1/2) (min 2 x))"
  "clamped PInf = Fin 2"
  "clamped NInf = Fin (1/2)"
  "clamped NaN = NaN"
  by (simp_all add: clamped_def Let_def max_def min_def)

lemma clamped_idem: "clamped (clamped factor) = clamped factor"
  by (cases factor) (simp_all add: clamped_cases max_def min_def)

lemma clamp_mbps_eq:
  "(if (if m < 2 then 2 else m) > 12 then 12 else (if m < 2 then 2 else m)) =
     max 2 (min 12 (m::int))"
  by (simp add: max_def min_def)

lemma set_unfold:
  "videoSetStreamQualityFactor W factor s =
     (None,
      let s2 = s\<lparr>qualityFactor := clamped factor,
                   targetBitrate :=
                     Itoa (max 2 (min 12
                       (int_of_float64 (int_of_NaN W) (f64_times4 (clamped factor))))) @ ''M''\<rparr>
      in if ffmpegCmd s \<noteq> None then videoStart W (videoStop s2) else s2)"
  unfolding videoSetStreamQualityFactor_def clamped_def Let_def clamp_mbps_eq
  by simp

lemma set_clamped:
  "videoSetStreamQualityFactor W factor s = videoSetStreamQualityFactor W (clamped factor) s"
  by (simp add: set_unfold clamped_idem)

lemma set_qualityFactor:
  "qualityFactor (snd (videoSetStreamQualityFactor W factor s)) = clamped factor"
  by (simp add: set_unfold Let_def videoStart_keeps videoStop_keeps)

lemma set_targetBitrate:
  "targetBitrate (snd (videoSetStreamQualityFactor W factor s)) =
     Itoa (max 2 (min 12
       (int_of_float64 (int_of_NaN W) (f64_times4 (clamped factor))))) @ ''M''"
  by (simp add: set_unfold Let_def videoStart_keeps videoStop_keeps)

lemma trunc_clamped:
  "int_of_float64 dflt (f64_times4 (clamped (Fin x))) = \<lfloor>4 * max (1/2) (min 2 x)\<rfloor>"
proof -
  have "0 \<le> 4 * max (1/2) (min 2 x)" by (simp add: max_def min_def)
  then show ?thesis by (simp add: clamped_cases)
qed

lemma mbps_range:
  "2 \<le> \<lfloor>4 * max (1/2) (min 2 (x::real))\<rfloor> \<and> \<lfloor>4 * max (1/2) (min 2 x)\<rfloor> \<le> 8"
proof -
  have "2 \<le> 4 * max (1/2) (min 2 x)" and "4 * max (1/2) (min 2 x) \<le> 8"
    by (simp_all add: max_def min_def)
  then show ?thesis by (simp add: le_floor_iff floor_le_iff)
qed

lemma clamped_range:
  "clamped factor = NaN \<or> (\<exists>x. clamped factor = Fin x \<and> 1/2 \<le> x \<and> x \<le> 2)"
proof (cases factor)
  case (Fin x)
  have "1/2 \<le> max (1/2) (min 2 x)" and "max (1/2) (min 2 x) \<le> 2"
    by (simp_all add: max_def min_def)
  with Fin show ?thesis by (simp only: clamped_cases) blast
next
  case PInf
  have "(1/2 :: real) \<le> 2" and "(2 :: real) \<le> 2" by simp_all
  with PInf show ?thesis by (simp only: clamped_cases) blast
next
  case NInf
  have "(1/2 :: real) \<le> 1/2" and "(1/2 :: real) \<le> 2" by simp_all
  with NInf show ?thesis by (simp only: clamped_cases) blast
next
  case NaN
  then show ?thesis by (simp add: clamped_cases)
qed

lemma reachable_qualityFactor:
  "reachable s \<Longrightarrow>
     qualityFactor s = NaN \<or> (\<exists>x. qualityFactor s = Fin x \<and> 1/2 \<le> x \<and> x \<le> 2)"
proof (induction rule: reachable.induct)
  case (reach_initial fc sc)
  show ?case by (simp add: initial_def)
next
  case (reach_videoInit s L W)
  then show ?case by (simp add: videoInit_snd videoInit_env_qualityFactor)
next
  case (reach_videoStart s W)
  then show ?case by (simp add: videoStart_keeps)
next
  case (reach_videoStop s)
  then show ?case by (simp add: videoStop_keeps)
next
  case (reach_setQuality s W f)
  show ?case by (simp only: set_qualityFactor clamped_range)
next
  case (reach_read_pass s chunk buf buf' s')
  then show ?case by (simp add: read_pass_qualityFactor)
qed

lemma getter_no_error: "snd (videoGetStreamQualityFactor s) = None"
  by (simp add: videoGetStreamQualityFactor_def)

lemma set_NaN_bitrate:
  "targetBitrate (snd (videoSetStreamQualityFactor bare_world NaN (initial None None))) = ''2M''"
  by (simp add: set_targetBitrate clamped_cases bare_world_def Itoa_def digits10.simps)

lemma args_distinct:
  "vaapi_args s \<noteq> qsv_args s" "vaapi_args s \<noteq> libx264_args s" "qsv_args s \<noteq> libx264_args s"
  by (simp_all add: vaapi_args_def qsv_args_def libx264_args_def)

subsection \<open>Facts about the reading goroutine\<close>

lemma indexAUD_no_boundary:
  assumes "\<not> has_boundary b"
  shows "indexAUD b startCode = Some (- 1)"
proof -
  from indexAUD_sound [of b] obtain r where
    r: "indexAUD b startCode = Some r"
    and p: "r = - 1 \<or>
       (0 \<le> r \<and> r + 4 < int (length b) \<and>
        take 4 (drop (nat r) b) = startCode \<and>
        (b ! nat (r + 4)) AND 0x1F = 9)"
    by blast
  have "r = - 1"
  proof (rule ccontr)
    assume "r \<noteq> - 1"
    with p have q: "0 \<le> r" "r + 4 < int (length b)"
      "take 4 (drop (nat r) b) = startCode" "(b ! nat (r + 4)) AND 0x1F = 9"
      by simp_all
    from q(1) have "nat (r + 4) = nat r + 4" by simp
    with q have "aud_at b (nat r)" and "nat r < length b"
      by (simp_all add: aud_at_def)
    then have "has_boundary b"
      by (auto simp add: has_boundary_def list_ex_iff)
    with assms show False by simp
  qed
  with r show ?thesis by simp
qed

lemma bytes_Index_prefix: "take (length sep) s = sep \<Longrightarrow> bytes_Index s sep = 0"
  by (cases s) simp_all

lemma indexAUD_leading_boundary:
  assumes "aud_at b 0"
  shows "indexAUD b startCode = Some 0"
proof -
  from assms have len: "4 < length b" and mk: "take 4 b = startCode"
    and ty: "(b ! 4) AND 0x1F = 9"
    by (simp_all add: aud_at_def)
  have l4: "length startCode = 4" by (simp add: startCode_def)
  from mk have "bytes_Index b startCode = 0"
    by (intro bytes_Index_prefix) (simp add: l4)
  with len ty show ?thesis
    unfolding indexAUD_def
    by (subst indexAUD_loop.simps) (simp add: l4)
qed

lemma scan_frames_stops:
  assumes "indexAUD data startCode = Some idx" and "idx \<le> 0"
  shows "scan_frames data s = Some (data, s)"
  using assms by (subst scan_frames.simps) simp

lemma no_boundary_short: "length b \<le> 4 \<Longrightarrow> \<not> has_boundary b"
  by (auto simp add: has_boundary_def list_ex_iff aud_at_def)

lemma no_boundary_without_zero:
  assumes "0 \<notin> set b"
  shows "\<not> has_boundary b"
proof
  assume "has_boundary b"
  then obtain p where p: "p < length b" "aud_at b p"
    by (auto simp add: has_boundary_def list_ex_iff)
  from p(2) have "take 4 (drop p b) = startCode" by (simp add: aud_at_def)
  then have "hd (take 4 (drop p b)) = 0" by (simp add: startCode_def)
  with p(1) have "b ! p = 0" by (simp add: hd_drop_conv_nth)
  with p(1) assms show False by (metis nth_mem)
qed

lemma scan_frames_total: "\<exists>r. scan_frames data s = Some r"
proof (induction data s rule: scan_frames.induct)
  case (1 data s)
  from indexAUD_sound [of data] obtain idx where idx: "indexAUD data startCode = Some idx"
    by blast
  show ?case
  proof (cases "idx \<le> 0")
    case True
    with idx show ?thesis by (subst scan_frames.simps) simp
  next
    case False
    with idx "1.IH" [OF idx False refl refl] show ?thesis
      by (subst scan_frames.simps) (simp add: Let_def)
  qed
qed

lemma read_pass_total: "\<exists>r. read_pass chunk st = Some r"
proof (cases st)
  case (Pair buf s)
  from scan_frames_total [of "buf @ chunk" s] obtain buf1 s1
    where "scan_frames (buf @ chunk) s = Some (buf1, s1)" by auto
  with Pair show ?thesis
    by (simp add: read_pass_def Let_def split: option.splits prod.splits)
qed

lemma stdout_reader_total: "\<exists>r. stdout_reader rs st = Some r"
proof (induction rs arbitrary: st)
  case Nil
  show ?case by simp
next
  case (Cons r rs)
  obtain chunk err where r: "r = (chunk, err)" by (cases r)
  from read_pass_total [of chunk st] obtain st' where "read_pass chunk st = Some st'" by blast
  with r Cons.IH [of st'] show ?case by simp
qed

lemma scan_frames_conserves:
  "scan_frames data s = Some (rest, s') \<Longrightarrow> videoFrameChan s = Some q \<Longrightarrow>
     \<exists>fs. videoFrameChan s' = Some (q @ fs) \<and> concat fs @ rest = data"
proof (induction data s arbitrary: q rule: scan_frames.induct)
  case (1 data s)
  from "1.prems"(1) obtain idx where idx: "indexAUD data startCode = Some idx"
    by (subst (asm) scan_frames.simps) (auto split: option.splits)
  show ?case
  proof (cases "idx \<le> 0")
    case True
    with idx "1.prems"(1) have "rest = data" "s' = s"
      by (subst (asm) scan_frames.simps, simp)+
    with "1.prems"(2) have "videoFrameChan s' = Some (q @ []) \<and> concat [] @ rest = data"
      by simp
    then show ?thesis by blast
  next
    case False
    define s1 where "s1 = (if length (take (nat idx) data) > 0
                      then (case videoFrameChan s of
                              None \<Rightarrow> s
                            | Some q \<Rightarrow> s\<lparr>videoFrameChan := Some (q @ [take (nat idx) data])\<rparr>)
                      else s)"
    from idx False "1.prems"(1) have rec: "scan_frames (drop (nat idx) data) s1 = Some (rest, s')"
      by (subst (asm) scan_frames.simps) (simp add: Let_def s1_def)
    define fs1 where "fs1 = (if length (take (nat idx) data) > 0 then [take (nat idx) data] else [])"
    from "1.prems"(2) have q1: "videoFrameChan s1 = Some (q @ fs1)"
      by (simp add: s1_def fs1_def)
    have c1: "concat fs1 = take (nat idx) data" by (simp add: fs1_def)
    from "1.IH" [OF idx False refl s1_def rec q1] obtain fs where
      fs: "videoFrameChan s' = Some ((q @ fs1) @ fs)" "concat fs @ rest = drop (nat idx) data"
      by blast
    from fs c1 have "videoFrameChan s' = Some (q @ (fs1 @ fs)) \<and> concat (fs1 @ fs) @ rest = data"
      by simp
    then show ?thesis by blast
  qed
qed

lemma read_pass_conserves:
  assumes "read_pass chunk (buf, s) = Some (buf', s')" and "videoFrameChan s = Some q"
  shows "\<exists>fs. videoFrameChan s' = Some (q @ fs) \<and> concat fs @ buf' = buf @ chunk"
proof (cases "length chunk > 0")
  case False
  with assms have "videoFrameChan s' = Some (q @ []) \<and> concat [] @ buf' = buf @ chunk"
    by (simp add: read_pass_def)
  then show ?thesis by blast
next
  case True
  with assms(1) obtain buf1 s1 where sc: "scan_frames (buf @ chunk) s = Some (buf1, s1)"
    by (auto simp add: read_pass_def split: option.splits)
  from scan_frames_conserves [OF sc assms(2)] obtain fs where
    fs: "videoFrameChan s1 = Some (q @ fs)" "concat fs @ buf1 = buf @ chunk"
    by blast
  show ?thesis
  proof (cases "int (length buf1) > 256 * 1024")
    case over: True
    with assms(1) True sc fs(1) have "buf' = []" "videoFrameChan s' = Some ((q @ fs) @ [buf1])"
      by (auto simp add: read_pass_def Let_def)
    with fs(2) have "videoFrameChan s' = Some (q @ (fs @ [buf1])) \<and>
        concat (fs @ [buf1]) @ buf' = buf @ chunk"
      by simp
    then show ?thesis by blast
  next
    case under: False
    with assms(1) True sc fs(1) have "buf' = buf1" "videoFrameChan s' = Some (q @ fs)"
      by (auto simp add: read_pass_def Let_def)
    with fs(2) show ?thesis by blast
  qed
qed

lemma stdout_reader_conserves:
  "stdout_reader rs (buf, s) = Some (buf', s') \<Longrightarrow> videoFrameChan s = Some q \<Longrightarrow>
     \<exists>fs. videoFrameChan s' = Some (q @ fs) \<and> concat fs @ buf' = buf @ read_bytes rs"
proof (induction rs arbitrary: buf s q)
  case Nil
  then have "videoFrameChan s' = Some (q @ []) \<and> concat [] @ buf' = buf @ read_bytes []"
    by simp
  then show ?case by blast
next
  case (Cons r rs)
  obtain chunk err where r: "r = (chunk, err)" by (cases r)
  from Cons.prems(1) r obtain buf1 s1 where
    p: "read_pass chunk (buf, s) = Some (buf1, s1)"
    by (auto split: option.splits)
  from read_pass_conserves [OF p Cons.prems(2)] obtain fs1 where
    fs1: "videoFrameChan s1 = Some (q @ fs1)" "concat fs1 @ buf1 = buf @ chunk"
    by blast
  show ?case
  proof (cases err)
    case True
    with Cons.prems(1) r p have "buf' = buf1" "s' = s1" by simp_all
    with fs1 r True show ?thesis by auto
  next
    case False
    with Cons.prems(1) r p have rest: "stdout_reader rs (buf1, s1) = Some (buf', s')" by simp
    from Cons.IH [OF rest fs1(1)] obtain fs where
      fs: "videoFrameChan s' = Some ((q @ fs1) @ fs)" "concat fs @ buf' = buf1 @ read_bytes rs"
      by blast
    from fs fs1(2) r False
    have "videoFrameChan s' = Some (q @ (fs1 @ fs)) \<and>
          concat (fs1 @ fs) @ buf' = buf @ read_bytes (r # rs)"
      by simp
    then show ?thesis by blast
  qed
qed

lemma aud_at_0_prefix:
  assumes "aud_at (data @ rest) 0" and "4 < length data"
  shows "aud_at data 0"
  using assms by (simp add: aud_at_def nth_append)

lemma read_pass_stuck:
  assumes "aud_at (buf @ chunk @ rest) 0" and "length (buf @ chunk) \<le> 256 * 1024"
  shows "\<exists>s'. read_pass chunk (buf, s) = Some (buf @ chunk, s') \<and>
              videoFrameChan s' = videoFrameChan s"
proof (cases "length chunk > 0")
  case False
  then show ?thesis by (simp add: read_pass_def)
next
  case True
  have "\<exists>idx. indexAUD (buf @ chunk) startCode = Some idx \<and> idx \<le> 0"
  proof (cases "4 < length (buf @ chunk)")
    case True
    with assms(1) have "aud_at (buf @ chunk) 0"
      using aud_at_0_prefix [of "buf @ chunk" rest] by simp
    then show ?thesis by (simp add: indexAUD_leading_boundary)
  next
    case False
    then have "\<not> has_boundary (buf @ chunk)" by (intro no_boundary_short) simp
    then show ?thesis by (simp add: indexAUD_no_boundary)
  qed
  then obtain idx where "indexAUD (buf @ chunk) startCode = Some idx" "idx \<le> 0" by blast
  then have "scan_frames (buf @ chunk) s = Some (buf @ chunk, s)" by (rule scan_frames_stops)
  with True assms(2) show ?thesis
    by (simp add: read_pass_def Let_def)
qed

lemma stdout_reader_stuck:
  "aud_at (buf @ read_bytes rs) 0 \<Longrightarrow> length (buf @ read_bytes rs) \<le> 256 * 1024 \<Longrightarrow>
     \<exists>s'. stdout_reader rs (buf, s) = Some (buf @ read_bytes rs, s') \<and>
          videoFrameChan s' = videoFrameChan s"
proof (induction rs arbitrary: buf s)
  case Nil
  then show ?case by simp
next
  case (Cons r rs)
  obtain chunk err where r: "r = (chunk, err)" by (cases r)
  define rest where "rest = (if err then [] else read_bytes rs)"
  from Cons.prems r have a: "aud_at (buf @ chunk @ rest) 0"
    and l: "length (buf @ chunk) \<le> 256 * 1024"
    by (simp_all add: rest_def)
  from read_pass_stuck [OF a l, of s] obtain s1 where
    p: "read_pass chunk (buf, s) = Some (buf @ chunk, s1)"
    and c: "videoFrameChan s1 = videoFrameChan s"
    by blast
  show ?case
  proof (cases err)
    case True
    with r p c show ?thesis by simp
  next
    case False
    with Cons.prems r have "aud_at ((buf @ chunk) @ read_bytes rs) 0"
      and "length ((buf @ chunk) @ read_bytes rs) \<le> 256 * 1024"
      by simp_all
    from Cons.IH [OF this, of s1] obtain s' where
      "stdout_reader rs (buf @ chunk, s1) = Some ((buf @ chunk) @ read_bytes rs, s')"
      "videoFrameChan s' = videoFrameChan s1"
      by blast
    with r p c False show ?thesis by simp
  qed
qed

text \<open>With a \<open>nil\<close> frame channel the overflow guard empties the buffer and sends nothing.\<close>

lemma read_pass_overflow_nil_chan:
  assumes "\<not> has_boundary (buf @ chunk)" and "chunk \<noteq> []" and "videoFrameChan s = None"
    and "length (buf @ chunk) > 256 * 1024"
  shows "map_option (\<lambda>(b, s'). (b, videoFrameChan s')) (read_pass chunk (buf, s)) =
         Some ([], None)"
proof -
  from assms(1) have "indexAUD (buf @ chunk) startCode = Some (- 1)"
    by (rule indexAUD_no_boundary)
  then have sc: "scan_frames (buf @ chunk) s = Some (buf @ chunk, s)"
    by (rule scan_frames_stops) simp
  from assms(2) have "length chunk > 0" by simp
  with sc assms(3,4) show ?thesis
    by (simp add: read_pass_def Let_def)
qed

section \<open>Claims\<close>

text \<open>
  C10. The boundary scan \<open>indexAUD b startCode\<close> returns for every byte
  sequence \<open>b\<close> (every iteration moves the scan position forward by at least the
  four bytes of the marker). What it returns is \<open>-1\<close> or an offset \<open>r\<close> at which
  the marker 00 00 00 01 occurs in \<open>b\<close>, followed inside \<open>b\<close> by a byte whose
  low five bits are 9. In particular a marker that fills the last four bytes of
  \<open>b\<close>, with no unit-type byte after it, is never returned as a boundary:
  a returned offset \<open>r\<close> has \<open>r + 4 < len(b)\<close>.
\<close>

theorem indexAUD_terminates_sound:
  "\<exists>r. indexAUD b startCode = Some r \<and>
      (r = - 1 \<or>
       (0 \<le> r \<and> r + 4 < int (length b) \<and>
        take 4 (drop (nat r) b) = [0x00, 0x00, 0x00, 0x01] \<and>
        (b ! nat (r + 4)) AND 0x1F = 9))"
  using indexAUD_sound [of b] by (simp add: startCode_def)

text \<open>
  C5. There is one variable for the run, so at most one run is registered.
  \<open>videoStart\<close> on a state whose \<open>ffmpegCmd\<close> is set changes nothing, and so
  starts no process. Two calls in a row from an idle state, the first of which
  launches ffmpeg, start exactly one process, and the second call changes
  nothing; whatever the launches do, two calls in a row start at most one
  process (a launch that fails starts none).
\<close>

theorem videoStart_single_run:
  "(ffmpegCmd s \<noteq> None \<longrightarrow> videoStart W s = s) \<and>
   (ffmpegCmd s = None \<and> StdoutPipe_err W1 = None \<and> Start_err W1 = None \<longrightarrow>
      ffmpegCmd (videoStart W1 s) \<noteq> None \<and>
      videoStart W2 (videoStart W1 s) = videoStart W1 s \<and>
      spawned (videoStart W2 (videoStart W1 s)) = spawned s + 1) \<and>
   spawned (videoStart W2 (videoStart W1 s)) \<le> spawned s + 1"
proof (intro conjI impI)
  assume "ffmpegCmd s \<noteq> None"
  then show "videoStart W s = s" by (rule videoStart_running)
next
  assume a: "ffmpegCmd s = None \<and> StdoutPipe_err W1 = None \<and> Start_err W1 = None"
  then have l: "ffmpegCmd (videoStart W1 s) \<noteq> None \<and> spawned (videoStart W1 s) = spawned s + 1"
    by (simp add: videoStart_launched)
  then show "ffmpegCmd (videoStart W1 s) \<noteq> None" by simp
  from l show "videoStart W2 (videoStart W1 s) = videoStart W1 s"
    by (simp add: videoStart_running)
  with l show "spawned (videoStart W2 (videoStart W1 s)) = spawned s + 1" by simp
next
  show "spawned (videoStart W2 (videoStart W1 s)) \<le> spawned s + 1"
  proof (cases "spawned (videoStart W1 s) = spawned s + 1")
    case True
    then have "ffmpegCmd (videoStart W1 s) \<noteq> None" by (rule videoStart_spawned_running)
    then have "videoStart W2 (videoStart W1 s) = videoStart W1 s" by (rule videoStart_running)
    with True show ?thesis by simp
  next
    case False
    with videoStart_spawned_le [of W1 s] have "spawned (videoStart W1 s) \<le> spawned s" by simp
    with videoStart_spawned_le [of W2 "videoStart W1 s"] show ?thesis by simp
  qed
qed

theorem videoStart_single_run_witness:
  "ffmpegCmd (initial None None) = None \<and> StdoutPipe_err bare_world = None \<and>
   Start_err bare_world = None \<and>
   ffmpegCmd (videoStart bare_world (initial None None)) \<noteq> None \<and>
   videoStart full_world (videoStart bare_world (initial None None)) =
     videoStart bare_world (initial None None) \<and>
   spawned (videoStart full_world (videoStart bare_world (initial None None))) = 1"
proof -
  have idle: "ffmpegCmd (initial None None) = None"
    and ok: "StdoutPipe_err bare_world = None" "Start_err bare_world = None"
    and zero: "spawned (initial None None) = 0"
    by (simp_all add: initial_def bare_world_def spawned_def)
  from videoStart_single_run [of "initial None None" bare_world bare_world full_world]
    idle ok
  have run: "ffmpegCmd (videoStart bare_world (initial None None)) \<noteq> None"
    and one: "spawned (videoStart full_world (videoStart bare_world (initial None None))) =
          spawned (initial None None) + 1"
    by blast+
  from videoStart_single_run
    [of "videoStart bare_world (initial None None)" full_world bare_world bare_world] run
  have noop: "videoStart full_world (videoStart bare_world (initial None None)) =
      videoStart bare_world (initial None None)"
    by blast
  from one zero have "spawned (videoStart full_world (videoStart bare_world (initial None None))) = 1"
    by simp
  with idle ok run noop show ?thesis by blast
qed

text \<open>
  C6. A launch failure is meant to leave no trace of the run. When
  \<open>cmd.Start()\<close> fails (here: no ffmpeg on the machine), \<open>videoStart\<close> sets
  \<open>ffmpegCmd\<close> and \<open>ffmpegCancel\<close> back to \<open>nil\<close> but leaves \<open>ffmpegStdout\<close>
  holding the pipe it assigned a few lines earlier, whereas \<open>videoStop\<close> sets
  all three variables to \<open>nil\<close>.
\<close>

theorem videoStart_failure_leaves_stdout:
  "ffmpegCmd (videoStart no_ffmpeg_world (initial None None)) = None \<and>
   ffmpegCancel (videoStart no_ffmpeg_world (initial None None)) = None \<and>
   ffmpegStdout (videoStart no_ffmpeg_world (initial None None)) = Some StdoutPipe \<and>
   ffmpegStdout (videoStop (videoStart bare_world (initial None None))) = None"
  by (simp add: videoStart_def videoStop_def Let_def log_error_def initial_def
      no_ffmpeg_world_def bare_world_def)

text \<open>
  C7. \<open>videoInit\<close> resolves the capture device path (the trimmed value of
  \<open>VIDEO_DEVICE\<close> when it is not empty, otherwise the path already set) and
  returns no error exactly when \<open>os.Stat\<close> succeeds on it; otherwise it
  returns the error "video device not found: <path>". In both cases it starts
  no process and registers no run.
\<close>

theorem videoInit_device_check:
  "videoDevice (snd (videoInit L W s)) =
     (if TrimSpace L (os_Getenv W ''VIDEO_DEVICE'') \<noteq> []
      then TrimSpace L (os_Getenv W ''VIDEO_DEVICE'') else videoDevice s) \<and>
   fst (videoInit L W s) =
     (if os_Stat W (videoDevice (snd (videoInit L W s))) then None
      else Some (''video device not found: '' @ videoDevice (snd (videoInit L W s)))) \<and>
   os_trace (snd (videoInit L W s)) = os_trace s \<and>
   ffmpegCmd (snd (videoInit L W s)) = ffmpegCmd s"
proof (intro conjI)
  show "videoDevice (snd (videoInit L W s)) =
     (if TrimSpace L (os_Getenv W ''VIDEO_DEVICE'') \<noteq> []
      then TrimSpace L (os_Getenv W ''VIDEO_DEVICE'') else videoDevice s)"
    by (simp only: videoInit_snd videoInit_env_videoDevice)
  show "fst (videoInit L W s) =
     (if os_Stat W (videoDevice (snd (videoInit L W s))) then None
      else Some (''video device not found: '' @ videoDevice (snd (videoInit L W s))))"
    by (simp add: videoInit_def Let_def)
  show "os_trace (snd (videoInit L W s)) = os_trace s"
    by (simp only: videoInit_snd videoInit_env_os_trace)
  show "ffmpegCmd (snd (videoInit L W s)) = ffmpegCmd s"
    by (simp only: videoInit_snd videoInit_env_ffmpegCmd)
qed

theorem videoInit_device_check_witness:
  "fst (videoInit plain_lib bare_world (initial None None)) =
     Some ''video device not found: /dev/video0'' \<and>
   fst (videoInit plain_lib full_world (initial None None)) = None \<and>
   spawned (snd (videoInit plain_lib bare_world (initial None None))) = 0"
proof -
  have e: "TrimSpace plain_lib (os_Getenv bare_world ''VIDEO_DEVICE'') = []"
    "TrimSpace plain_lib (os_Getenv full_world ''VIDEO_DEVICE'') = []"
    "videoDevice (initial None None) = ''/dev/video0''"
    "os_trace (initial None None) = []"
    "\<not> os_Stat bare_world ''/dev/video0''" "os_Stat full_world ''/dev/video0''"
    by (simp_all add: plain_lib_def bare_world_def full_world_def initial_def)
  from videoInit_device_check [of plain_lib bare_world "initial None None"]
    videoInit_device_check [of plain_lib full_world "initial None None"] e
  show ?thesis by (simp add: spawned_def)
qed

text \<open>
  C8. \<open>videoStop\<close> on an idle pipeline (the three variables of the run are
  \<open>nil\<close>) asks nothing of the operating system: no cancel, no kill, no wait.
  The three variables stay \<open>nil\<close>; the call sets \<open>Ready\<close> to false and sends
  the state on the state channel when there is one, and does nothing else. A
  second \<open>videoStop\<close> right after a first leaves every variable as the first
  left it; only the state channel has received one more copy of the same state.
\<close>

theorem videoStop_idle:
  assumes "ffmpegCmd s = None" and "ffmpegCancel s = None" and "ffmpegStdout s = None"
  shows "os_trace (videoStop s) = os_trace s \<and>
         ffmpegCmd (videoStop s) = None \<and> ffmpegCancel (videoStop s) = None \<and>
         ffmpegStdout (videoStop s) = None \<and>
         videoStop s = publish_state (s\<lparr>currentState := (currentState s)\<lparr>Ready := False\<rparr>\<rparr>) \<and>
         (videoStop (videoStop s))\<lparr>videoStateChan := videoStateChan (videoStop s)\<rparr> = videoStop s"
proof (intro conjI)
  from assms show "os_trace (videoStop s) = os_trace s" by (simp only: videoStop_idle_trace)
  show "ffmpegCmd (videoStop s) = None" by (rule videoStop_fields)
  show "ffmpegCancel (videoStop s) = None" by (rule videoStop_fields)
  show "ffmpegStdout (videoStop s) = None" by (rule videoStop_fields)
  from assms show "videoStop s = publish_state (s\<lparr>currentState := (currentState s)\<lparr>Ready := False\<rparr>\<rparr>)"
    by (rule videoStop_idle_eq)
  show "(videoStop (videoStop s))\<lparr>videoStateChan := videoStateChan (videoStop s)\<rparr> = videoStop s"
    by (rule videoStop_twice)
qed

theorem videoStop_idle_witness:
  "ffmpegCmd (initial None None) = None \<and> ffmpegCancel (initial None None) = None \<and>
   ffmpegStdout (initial None None) = None \<and>
   os_trace (videoStop (initial None None)) = []"
proof -
  have idle: "ffmpegCmd (initial None None) = None" "ffmpegCancel (initial None None) = None"
    "ffmpegStdout (initial None None) = None" and tr: "os_trace (initial None None) = []"
    by (simp_all add: initial_def)
  from videoStop_idle [OF idle] idle tr show ?thesis by simp
qed

text \<open>
  C9. The factor is meant to stay in [0.5, 2.0] (the comment on the variable
  says so, and the setter clamps). Setting NaN defeats both clamps: each of
  the comparisons \<open>factor < 0.5\<close> and \<open>factor > 2.0\<close> is false, NaN is
  stored, and \<open>videoGetStreamQualityFactor\<close> then returns NaN with a \<open>nil\<close>
  error. (\<open>reachable_qualityFactor\<close>: NaN is the only value outside the range
  that any reachable state holds; \<open>getter_no_error\<close>: the getter never
  returns an error.)
\<close>

theorem qualityFactor_NaN_stored:
  "reachable (snd (videoSetStreamQualityFactor bare_world NaN (initial None None))) \<and>
   videoGetStreamQualityFactor
     (snd (videoSetStreamQualityFactor bare_world NaN (initial None None))) = (NaN, None)"
proof -
  have "reachable (snd (videoSetStreamQualityFactor bare_world NaN (initial None None)))"
    by (intro reach_setQuality reach_initial)
  moreover have "qualityFactor (snd (videoSetStreamQualityFactor bare_world NaN (initial None None))) = NaN"
    by (simp add: set_qualityFactor clamped_cases)
  ultimately show ?thesis by (simp add: videoGetStreamQualityFactor_def)
qed

text \<open>
  C1, as the code has it. \<open>videoSetStreamQualityFactor\<close> returns no error.
  For every input other than NaN it stores the factor clamped to [0.5, 2.0]
  (an infinite input is clamped like any other) and sets the bitrate token to
  "<m>M" with \<open>m = clamp(trunc(4 * factor'), 2, 12)\<close> for the clamped factor
  \<open>factor'\<close>: Go's conversion \<open>int(4 * factor)\<close> drops the fraction (the floor,
  for these positive values) and does not round. For every input the token is
  "<m>M" with \<open>m\<close> in [2, 12]; setting 0.1 has the same result and effects as
  setting 0.5, and setting 5.0 the same as setting 2.0.
\<close>

theorem videoSetStreamQualityFactor_truncates:
  "fst (videoSetStreamQualityFactor W factor s) = None \<and>
   qualityFactor (snd (videoSetStreamQualityFactor W (Fin x) s)) = Fin (max (1/2) (min 2 x)) \<and>
   targetBitrate (snd (videoSetStreamQualityFactor W (Fin x) s)) =
     Itoa (max 2 (min 12 \<lfloor>4 * max (1/2) (min 2 x)\<rfloor>)) @ ''M'' \<and>
   videoSetStreamQualityFactor W PInf s = videoSetStreamQualityFactor W (Fin 2) s \<and>
   videoSetStreamQualityFactor W NInf s = videoSetStreamQualityFactor W (Fin (1/2)) s \<and>
   (\<exists>m. targetBitrate (snd (videoSetStreamQualityFactor W factor s)) = Itoa m @ ''M'' \<and>
        2 \<le> m \<and> m \<le> 12) \<and>
   videoSetStreamQualityFactor W (Fin (1/10)) s = videoSetStreamQualityFactor W (Fin (1/2)) s \<and>
   videoSetStreamQualityFactor W (Fin 5) s = videoSetStreamQualityFactor W (Fin 2) s"
proof (intro conjI)
  show "fst (videoSetStreamQualityFactor W factor s) = None"
    by (simp add: set_unfold)
  show "qualityFactor (snd (videoSetStreamQualityFactor W (Fin x) s)) = Fin (max (1/2) (min 2 x))"
    by (simp only: set_qualityFactor clamped_cases)
  show "targetBitrate (snd (videoSetStreamQualityFactor W (Fin x) s)) =
     Itoa (max 2 (min 12 \<lfloor>4 * max (1/2) (min 2 x)\<rfloor>)) @ ''M''"
    by (simp only: set_targetBitrate trunc_clamped)
  show "videoSetStreamQualityFactor W PInf s = videoSetStreamQualityFactor W (Fin 2) s"
    by (subst set_clamped) (simp add: clamped_cases)
  show "videoSetStreamQualityFactor W NInf s = videoSetStreamQualityFactor W (Fin (1/2)) s"
    by (subst set_clamped) (simp add: clamped_cases)
  have "2 \<le> max 2 (min 12 (int_of_float64 (int_of_NaN W) (f64_times4 (clamped factor))))"
    by (rule max.cobounded1)
  moreover have "max 2 (min 12 (int_of_float64 (int_of_NaN W) (f64_times4 (clamped factor)))) \<le> 12"
    by (rule max.boundedI) simp_all
  ultimately show "\<exists>m. targetBitrate (snd (videoSetStreamQualityFactor W factor s)) = Itoa m @ ''M'' \<and>
        2 \<le> m \<and> m \<le> 12"
    using set_targetBitrate [of W factor s] by blast
  show "videoSetStreamQualityFactor W (Fin (1/10)) s = videoSetStreamQualityFactor W (Fin (1/2)) s"
    by (subst set_clamped) (simp add: clamped_cases)
  show "videoSetStreamQualityFactor W (Fin 5) s = videoSetStreamQualityFactor W (Fin 2) s"
    by (subst set_clamped) (simp add: clamped_cases)
qed

text \<open>
  C1 as claimed fails in two places. With \<open>m = clamp(round(4 * factor), 2, 12)\<close>
  it fails at the factor 11/16 = 0.6875: \<open>4 * factor\<close> is 2.75, the code sets
  "2M", rounding gives "3M". And "for every float input" it fails at NaN, which
  is stored as it is, not clamped.
\<close>

theorem set_bitrate_rounding_counterexample:
  "targetBitrate (snd (videoSetStreamQualityFactor bare_world (Fin (11/16)) (initial None None)))
     \<noteq> spec_bitrate_token (11/16) \<and>
   qualityFactor (snd (videoSetStreamQualityFactor bare_world NaN (initial None None))) = NaN"
proof -
  have "targetBitrate (snd (videoSetStreamQualityFactor bare_world (Fin (11/16)) (initial None None))) = ''2M''"
    by (simp add: set_targetBitrate clamped_cases Itoa_def digits10.simps)
  moreover have "round (11/4 :: real) = 3"
    by (simp add: round_def)
  then have "spec_bitrate_token (11/16) = ''3M''"
    by (simp add: spec_bitrate_token_def Itoa_def digits10.simps)
  moreover have "qualityFactor (snd (videoSetStreamQualityFactor bare_world NaN (initial None None))) = NaN"
    by (simp add: set_qualityFactor clamped_cases)
  ultimately show ?thesis by simp
qed

text \<open>
  C2, as the code has it. The accel-A (VAAPI) list is emitted when the mode
  is \<open>vaapi\<close> or \<open>auto\<close> and the accel-A device node exists; otherwise the
  accel-B (QSV) list when the mode is \<open>qsv\<close> or \<open>auto\<close> and the node
  \<open>/dev/dri/renderD128\<close> exists; otherwise the software (libx264) list. A
  forced mode whose device node is missing gets the software list.
\<close>

theorem buildFFmpegArgs_policy:
  "buildFFmpegArgs W s =
     (if (hwAccelMode s = ''vaapi'' \<or> hwAccelMode s = ''auto'') \<and> os_Stat W (vaapiDevice s)
      then vaapi_args s
      else if (hwAccelMode s = ''qsv'' \<or> hwAccelMode s = ''auto'') \<and>
              os_Stat W ''/dev/dri/renderD128''
      then qsv_args s
      else libx264_args s)"
  by (auto simp add: buildFFmpegArgs_def Let_def)

theorem buildFFmpegArgs_policy_witness:
  "buildFFmpegArgs full_world (initial None None) = vaapi_args (initial None None) \<and>
   buildFFmpegArgs full_world ((initial None None)\<lparr>hwAccelMode := ''qsv''\<rparr>) =
     qsv_args ((initial None None)\<lparr>hwAccelMode := ''qsv''\<rparr>) \<and>
   buildFFmpegArgs bare_world (initial None None) = libx264_args (initial None None)"
  using buildFFmpegArgs_policy [of full_world "initial None None"]
    buildFFmpegArgs_policy [of full_world "(initial None None)\<lparr>hwAccelMode := ''qsv''\<rparr>"]
    buildFFmpegArgs_policy [of bare_world "initial None None"]
  by (simp add: initial_def full_world_def bare_world_def)

text \<open>
  C2 as claimed, where the mode \<open>vaapi\<close> alone selects the accel-A list, fails
  for the mode \<open>vaapi\<close> on a machine without the device node: the code emits
  the software list.
\<close>

theorem buildFFmpegArgs_forced_mode_counterexample:
  "buildFFmpegArgs bare_world ((initial None None)\<lparr>hwAccelMode := ''vaapi''\<rparr>)
     \<noteq> spec_buildFFmpegArgs bare_world ((initial None None)\<lparr>hwAccelMode := ''vaapi''\<rparr>)"
  by (simp add: buildFFmpegArgs_def spec_buildFFmpegArgs_def Let_def initial_def bare_world_def
      vaapi_args_def libx264_args_def)

text \<open>
  C4. A turn of the reading loop whose buffer, after the new bytes are
  appended, holds no boundary finds nothing to cut. If the buffer is then
  longer than 256 KiB (262144 bytes), the turn sends exactly one frame, the
  whole buffer, and leaves the buffer empty; if it is not, the turn sends
  nothing and keeps the buffer. This is for a frame channel that is not
  \<open>nil\<close> (with a \<open>nil\<close> channel the code empties the buffer and sends
  nothing); the frame is the content at the time of the send.
\<close>

theorem read_pass_overflow_flush:
  assumes "\<not> has_boundary (buf @ chunk)" and "chunk \<noteq> []" and "videoFrameChan s = Some q"
  shows "map_option (\<lambda>(b, s'). (b, videoFrameChan s')) (read_pass chunk (buf, s)) =
         Some (if length (buf @ chunk) > 256 * 1024
               then ([], Some (q @ [buf @ chunk]))
               else (buf @ chunk, Some q))"
proof -
  from assms(1) have "indexAUD (buf @ chunk) startCode = Some (- 1)"
    by (rule indexAUD_no_boundary)
  then have sc: "scan_frames (buf @ chunk) s = Some (buf @ chunk, s)"
    by (rule scan_frames_stops) simp
  from assms(2) have "length chunk > 0" by simp
  with sc assms(3) show ?thesis
    by (simp add: read_pass_def Let_def)
qed

theorem read_pass_overflow_flush_witness:
  "\<not> has_boundary (replicate 262144 0xFF @ [0xFF]) \<and>
   map_option (\<lambda>(b, s'). (b, videoFrameChan s'))
     (read_pass [0xFF] (replicate 262144 0xFF, initial (Some []) None)) =
   Some ([], Some [replicate 262144 0xFF @ [0xFF]])"
proof -
  have nb: "\<not> has_boundary (replicate 262144 0xFF @ [0xFF :: byte])"
    by (rule no_boundary_without_zero) simp
  have ch: "videoFrameChan (initial (Some []) None) = Some []"
    by (simp add: initial_def)
  from read_pass_overflow_flush [OF nb _ ch] nb show ?thesis by simp
qed

text \<open>
  C3. The round trip asks for one frame out of two units. Fed the two units
  00 00 00 01 09 AA and 00 00 00 01 09 BB in one read, the reading loop sends no
  frame and keeps all twelve bytes: \<open>indexAUD\<close> scans from offset 0 and
  returns the boundary the buffer starts with, and the loop stops on
  \<open>idx \<le> 0\<close>. (\<open>stdout_reader_stuck\<close> shows the same for every stream
  that starts with a boundary and is no longer than 256 KiB, however it is cut
  into reads; \<open>stdout_reader_conserves\<close> shows that frames sent and bytes
  kept do add up to the bytes read.)
\<close>

theorem framer_two_units_no_frame:
  "map_option (\<lambda>(b, s'). (b, videoFrameChan s'))
     (stdout_reader [(two_units, False)] ([], initial (Some []) None)) =
   Some (two_units, Some [])"
proof -
  have "aud_at two_units 0"
    by (simp add: aud_at_def two_units_def startCode_def)
  then have "indexAUD two_units startCode = Some 0"
    by (rule indexAUD_leading_boundary)
  then have "scan_frames two_units (initial (Some []) None) = Some (two_units, initial (Some []) None)"
    by (rule scan_frames_stops) simp
  moreover have "0 < length two_units" "\<not> 256 * 1024 < int (length two_units)"
    by (simp_all add: two_units_def)
  ultimately show ?thesis
    by (simp add: read_pass_def Let_def initial_def)
qed

end
